theory Spec2Isabelle
  imports Main "HOL-Library.Sublist"
begin

section \<open>The task table \<open>raw_scrapes\<close> (db\_new.py)\<close>

text \<open>
  The durable task store of the relational backend is the SQLite table \<open>raw_scrapes\<close>.
  A row is a record; the table is the list of its rows in rowid order, which is the
  order in which a scan without \<open>ORDER BY\<close> visits them. The column \<open>status\<close> only
  ever holds the four literals below: \<open>READY\<close> is the spec's PENDING and
  \<open>PROCESSING\<close> is its CLAIMED. Timestamps are whole seconds, the resolution of
  \<open>CURRENT_TIMESTAMP\<close>; the clock reading of each statement is a parameter \<open>now\<close>.
  The table has no owner column: \<open>claim_pending_raw\<close> receives a worker id and never
  stores it.
\<close>

type_synonym timestamp = int

datatype raw_status = READY | PROCESSING | DONE | FAILED

record raw_scrape =
  domain :: string
  snapshot_path :: string
  clean_text :: string
  tech_stack :: string
  status :: raw_status
  created_at :: timestamp
  updated_at :: timestamp

type_synonym raw_scrapes = "raw_scrape list"

text \<open>\<open>domain TEXT PRIMARY KEY\<close>: no two rows carry the same domain.\<close>

definition primary_key :: "raw_scrapes \<Rightarrow> bool" where
  "primary_key tbl = distinct (map domain tbl)"

text \<open>
  \<open>INSERT ... ON CONFLICT(domain) DO UPDATE SET ...\<close>: a new domain is appended with
  both timestamps defaulting to the current time; an existing row keeps its place and
  its \<open>created_at\<close> and has every other column overwritten.
\<close>

definition upsert_raw_scrape ::
  "string \<Rightarrow> string \<Rightarrow> string \<Rightarrow> string \<Rightarrow> raw_status \<Rightarrow> timestamp \<Rightarrow> raw_scrapes \<Rightarrow> raw_scrapes" where
  "upsert_raw_scrape d sp ct ts st now tbl =
     (if d \<in> set (map domain tbl)
      then map (\<lambda>r. if domain r = d
                      then r\<lparr>snapshot_path := sp, clean_text := ct, tech_stack := ts,
                             status := st, updated_at := now\<rparr>
                      else r) tbl
      else tbl @ [\<lparr>domain = d, snapshot_path = sp, clean_text = ct, tech_stack = ts,
                    status = st, created_at = now, updated_at = now\<rparr>])"

text \<open>\<open>UPDATE raw_scrapes SET status=?, updated_at=CURRENT_TIMESTAMP WHERE domain=?\<close>\<close>

definition update_raw_status :: "string \<Rightarrow> raw_status \<Rightarrow> timestamp \<Rightarrow> raw_scrapes \<Rightarrow> raw_scrapes" where
  "update_raw_status d st now tbl =
     map (\<lambda>r. if domain r = d then r\<lparr>status := st, updated_at := now\<rparr> else r) tbl"

text \<open>
  SQLite's \<open>LIMIT n\<close>: a negative \<open>n\<close> means no upper bound.
\<close>

definition sql_limit :: "int \<Rightarrow> 'a list \<Rightarrow> 'a list" where
  "sql_limit n xs = (if n < 0 then xs else take (nat n) xs)"

text \<open>The three columns that \<open>claim_pending_raw\<close> and \<open>fetch_pending_raw\<close> select.\<close>

record pending_row =
  row_domain :: string
  row_clean_text :: string
  row_tech_stack :: string

definition select_columns :: "raw_scrape \<Rightarrow> pending_row" where
  "select_columns r =
     \<lparr>row_domain = domain r, row_clean_text = clean_text r, row_tech_stack = tech_stack r\<rparr>"

text \<open>
  One statement of the marking loop:
  \<open>UPDATE raw_scrapes SET status='PROCESSING', updated_at=CURRENT_TIMESTAMP
   WHERE domain=? AND status='READY'\<close>.
\<close>

definition mark_processing :: "timestamp \<Rightarrow> raw_scrapes \<Rightarrow> pending_row \<Rightarrow> raw_scrapes" where
  "mark_processing now tbl row =
     map (\<lambda>r. if domain r = row_domain row \<and> status r = READY
               then r\<lparr>status := PROCESSING, updated_at := now\<rparr> else r) tbl"

text \<open>
  \<open>claim_pending_raw\<close> runs inside \<open>BEGIN IMMEDIATE ... COMMIT\<close>, which takes the
  database write lock: concurrent callers are serialised, so a call is one function
  from the table before to the rows returned and the table after. A storage failure
  rolls back and re-raises; the table is a value here and cannot fail.
\<close>

definition claim_pending_raw ::
  "string \<Rightarrow> int \<Rightarrow> timestamp \<Rightarrow> raw_scrapes \<Rightarrow> pending_row list \<times> raw_scrapes" where
  "claim_pending_raw worker_id limit now tbl =
     (let rows = map select_columns (sql_limit limit (filter (\<lambda>r. status r = READY) tbl))
      in (rows, foldl (mark_processing now) tbl rows))"

text \<open>
  \<open>release_stuck_processing\<close> (multi\_worker.py): the threshold is the current time
  minus the timeout, and one \<open>UPDATE ... WHERE status='PROCESSING' AND updated_at < ?\<close>
  resets the rows beyond it; the result is the statement's row count.
\<close>

definition stuck :: "timestamp \<Rightarrow> raw_scrape \<Rightarrow> bool" where
  "stuck threshold r = (status r = PROCESSING \<and> updated_at r < threshold)"

definition release_stuck_processing :: "int \<Rightarrow> timestamp \<Rightarrow> raw_scrapes \<Rightarrow> nat \<times> raw_scrapes" where
  "release_stuck_processing timeout_seconds now tbl =
     (let threshold = now - timeout_seconds
      in (length (filter (stuck threshold) tbl),
          map (\<lambda>r. if stuck threshold r then r\<lparr>status := READY, updated_at := now\<rparr> else r) tbl))"

text \<open>A table with one row in every state, used to evaluate the operations.\<close>

definition example_table :: raw_scrapes where
  "example_table =
     [\<lparr>domain = ''a.com'', snapshot_path = ''a.html'', clean_text = ''A'', tech_stack = ''[]'',
        status = READY, created_at = 0, updated_at = 0\<rparr>,
      \<lparr>domain = ''b.com'', snapshot_path = ''b.html'', clean_text = ''B'', tech_stack = ''[]'',
        status = PROCESSING, created_at = 1, updated_at = 5\<rparr>,
      \<lparr>domain = ''c.com'', snapshot_path = ''c.html'', clean_text = ''C'', tech_stack = ''[]'',
        status = DONE, created_at = 2, updated_at = 6\<rparr>,
      \<lparr>domain = ''d.com'', snapshot_path = ''d.html'', clean_text = ''D'', tech_stack = ''[]'',
        status = READY, created_at = 3, updated_at = 3\<rparr>,
      \<lparr>domain = ''e.com'', snapshot_path = '''', clean_text = '''', tech_stack = ''[]'',
        status = FAILED, created_at = 4, updated_at = 4\<rparr>,
      \<lparr>domain = ''f.com'', snapshot_path = ''f.html'', clean_text = ''F'', tech_stack = ''[]'',
        status = PROCESSING, created_at = 5, updated_at = 950\<rparr>]"


section \<open>Key normalisation at job submission (api\_server.py)\<close>

text \<open>
  Python strings are sequences of code points; a \<open>char\<close> here is a code point below
  256. On that range \<open>str.isspace\<close> holds for U+0009 to U+000D, U+001C to U+0020,
  U+0085 and U+00A0, and \<open>str.lower\<close> adds 32 to A..Z and to U+00C0..U+00DE
  except the multiplication sign U+00D7.
\<close>

definition isspace :: "char \<Rightarrow> bool" where
  "isspace c = (let n = (of_char c :: nat)
                in (9 \<le> n \<and> n \<le> 13) \<or> (28 \<le> n \<and> n \<le> 32) \<or> n = 133 \<or> n = 160)"

definition lower_char :: "char \<Rightarrow> char" where
  "lower_char c = (let n = (of_char c :: nat)
                   in if (65 \<le> n \<and> n \<le> 90) \<or> (192 \<le> n \<and> n \<le> 222 \<and> n \<noteq> 215)
                      then char_of (n + 32) else c)"

definition lower :: "string \<Rightarrow> string" where
  "lower s = map lower_char s"


text \<open>
  \<open>s.split()\<close>: the maximal runs of non-space characters, in order. The first
  argument is the run being read.
\<close>

fun split_run :: "string \<Rightarrow> string \<Rightarrow> string list" where
  "split_run cur [] = (if cur = [] then [] else [cur])"
| "split_run cur (c # cs) =
     (if isspace c then (if cur = [] then split_run [] cs else cur # split_run [] cs)
      else split_run (cur @ [c]) cs)"


text \<open>\<open>s.strip()\<close>\<close>

definition strip :: "string \<Rightarrow> string" where
  "strip s = rev (dropWhile isspace (rev (dropWhile isspace s)))"











section \<open>Jobs of the Redis backend (redis\_manager.py)\<close>

text \<open>
  The job statuses that the code writes: \<open>"pending"\<close>, \<open>"processing"\<close> and
  \<open>"completed"\<close> in Redis jobs; \<open>"queued"\<close>, \<open>"processing"\<close>,
  \<open>"waiting_approval"\<close> and \<open>"completed"\<close> in the jobs of the API server.
\<close>

datatype job_status = Pending | Queued | Processing | WaitingApproval | Completed




text \<open>The document stored under \<open>result:<job_id>:<domain>\<close>.\<close>

record 'd task_result =
  result_job_id :: string
  result_domain :: string
  success :: bool
  result_completed_at :: timestamp
  data :: "'d option"
  error :: "string option"









section \<open>Exceptions, the result tables and the collaborators\<close>

text \<open>
  What a collaborator can raise: an exception of class \<open>Exception\<close> with its message
  \<open>str(e)\<close>, or one of the exceptions outside that class, which \<open>except Exception\<close>
  does not catch.
\<close>

datatype exn = Exception string | KeyboardInterrupt | SystemExit

text \<open>
  The SQLite database: the task table, the table \<open>metrics\<close>, and the profile tables
  that \<open>save_extracted_data\<close> fills, kept as the list of the saved pairs of domain and
  profile.
\<close>

record metric =
  metric_domain :: string
  start_time :: timestamp
  end_time :: timestamp
  duration_seconds :: int
  metric_success :: bool
  error_msg :: "string option"

record 'd database =
  raw_scrapes :: raw_scrapes
  metrics :: "metric list"
  profiles :: "(string \<times> 'd) list"

text \<open>
  \<open>save_extracted_data\<close> is the persistence sink. Whether a call fails, and with what,
  is decided by the parameter \<open>failing\<close>; a call that fails is taken to have written
  nothing.
\<close>

definition save_extracted_data ::
  "(string \<Rightarrow> 'd \<Rightarrow> exn option) \<Rightarrow> string \<Rightarrow> 'd \<Rightarrow> 'd database \<Rightarrow> exn + 'd database" where
  "save_extracted_data failing d profile db =
     (case failing d profile of
        Some e \<Rightarrow> Inl e
      | None \<Rightarrow> Inr (db\<lparr>profiles := profiles db @ [(d, profile)]\<rparr>))"

definition insert_metric ::
  "string \<Rightarrow> timestamp \<Rightarrow> timestamp \<Rightarrow> int \<Rightarrow> bool \<Rightarrow> string option \<Rightarrow> 'd database \<Rightarrow> 'd database" where
  "insert_metric d t0 t1 dur ok msg db =
     db\<lparr>metrics := metrics db @
          [\<lparr>metric_domain = d, start_time = t0, end_time = t1, duration_seconds = dur,
            metric_success = ok, error_msg = msg\<rparr>]\<rparr>"

definition set_raw_status :: "string \<Rightarrow> raw_status \<Rightarrow> timestamp \<Rightarrow> 'd database \<Rightarrow> 'd database" where
  "set_raw_status d st now db = db\<lparr>raw_scrapes := update_raw_status d st now (raw_scrapes db)\<rparr>"

section \<open>Jobs of the API server and the approval queue (api\_server.py)\<close>

text \<open>
  A Python dictionary keeps its keys in insertion order: a list of pairs with the
  operations the code uses. Assigning to a key that is present keeps its place.
\<close>

fun dict_set :: "'k \<Rightarrow> 'v \<Rightarrow> ('k \<times> 'v) list \<Rightarrow> ('k \<times> 'v) list" where
  "dict_set k v [] = [(k, v)]"
| "dict_set k v (p # ps) = (if fst p = k then (k, v) # ps else p # dict_set k v ps)"

definition dict_contains :: "'k \<Rightarrow> ('k \<times> 'v) list \<Rightarrow> bool" where
  "dict_contains k d = (k \<in> set (map fst d))"

definition dict_remove :: "'k \<Rightarrow> ('k \<times> 'v) list \<Rightarrow> ('k \<times> 'v) list" where
  "dict_remove k d = filter (\<lambda>p. fst p \<noteq> k) d"

text \<open>
  The log lines are f-strings; an entry keeps the template and its arguments. The
  emoji that start the messages are left out.
\<close>

datatype log_message =
    Starting nat
  | Scraping string
  | Queued_for_approval string
  | Failed_to_extract string string
  | Error_processing string string
  | Extraction_complete nat int
  | Approved_and_saved string
  | Failed_to_save string string
  | Rejected string

record log_entry =
  log_timestamp :: string
  level :: string
  message :: log_message

text \<open>The value of \<open>processing_jobs[job_id]\<close>.\<close>

record 'd api_job =
  status_p :: job_status
  total_p :: int
  completed_p :: int
  failed_p :: int
  current_domain :: "string option"
  logs :: "log_entry list"
  pending_approvals :: "(string \<times> 'd) list"
  approved_data :: "(string \<times> 'd) list"
  rejected_domains :: "string list"

definition add_log :: "string \<Rightarrow> string \<Rightarrow> log_message \<Rightarrow> 'd api_job \<Rightarrow> 'd api_job" where
  "add_log ts lvl msg job =
     job\<lparr>logs := logs job @ [\<lparr>log_timestamp = ts, level = lvl, message = msg\<rparr>]\<rparr>"

text \<open>
  What \<open>process_domain(domain, skip_save=True)\<close> returns: the final state of the agent
  graph. An empty \<open>extracted_data\<close> dictionary, which Python takes for false, is
  \<open>None\<close>. The call writes nothing to the database.
\<close>

record 'd agent_state =
  extracted_data :: "'d option"
  agent_status :: string
  agent_error :: string

text \<open>
  One iteration of the loop of \<open>process_domains_background\<close>. The job is changed
  in place, so it is part of the result also when an exception that the loop does not
  catch ends the task; the first component says whether one did.
\<close>

definition process_one ::
  "(string \<Rightarrow> exn + 'd agent_state) \<Rightarrow> string \<Rightarrow> 'd api_job \<Rightarrow> string \<Rightarrow> exn option \<times> 'd api_job" where
  "process_one process_domain ts job d =
     (let job = add_log ts ''info'' (Scraping d) (job\<lparr>current_domain := Some d\<rparr>)
      in case process_domain d of
           Inr result \<Rightarrow>
             (case extracted_data result of
                Some x \<Rightarrow>
                  if agent_status result = ''extracted''
                  then (None, add_log ts ''info'' (Queued_for_approval d)
                         (job\<lparr>pending_approvals := dict_set d x (pending_approvals job)\<rparr>))
                  else (None, add_log ts ''error'' (Failed_to_extract d (agent_error result))
                         (job\<lparr>failed_p := failed_p job + 1\<rparr>))
              | None \<Rightarrow>
                  (None, add_log ts ''error'' (Failed_to_extract d (agent_error result))
                         (job\<lparr>failed_p := failed_p job + 1\<rparr>)))
         | Inl (Exception msg) \<Rightarrow>
             (None, add_log ts ''error'' (Error_processing d msg)
                      (job\<lparr>failed_p := failed_p job + 1\<rparr>))
         | Inl e \<Rightarrow> (Some e, job))"

fun process_loop ::
  "(string \<Rightarrow> exn + 'd agent_state) \<Rightarrow> string \<Rightarrow> 'd api_job \<Rightarrow> string list \<Rightarrow> exn option \<times> 'd api_job" where
  "process_loop process_domain ts job [] = (None, job)"
| "process_loop process_domain ts job (d # ds) =
     (case process_one process_domain ts job d of
        (Some e, job') \<Rightarrow> (Some e, job')
      | (None, job') \<Rightarrow> process_loop process_domain ts job' ds)"

definition new_job :: "string \<Rightarrow> string list \<Rightarrow> 'd api_job" where
  "new_job ts ds =
     add_log ts ''info'' (Starting (length ds))
       \<lparr>status_p = Processing, total_p = int (length ds), completed_p = 0, failed_p = 0,
        current_domain = None, logs = [], pending_approvals = [], approved_data = [],
        rejected_domains = []\<rparr>"

text \<open>
  \<open>process_domains_background\<close>, on the job alone: the job is created, the loop runs,
  and the status is set to \<open>"waiting_approval"\<close> whatever the loop produced.
\<close>

definition process_domains_background ::
  "(string \<Rightarrow> exn + 'd agent_state) \<Rightarrow> string \<Rightarrow> string list \<Rightarrow> exn option \<times> 'd api_job" where
  "process_domains_background process_domain ts ds =
     (case process_loop process_domain ts (new_job ts ds) ds of
        (Some e, job) \<Rightarrow> (Some e, job)
      | (None, job) \<Rightarrow>
          (let job = job\<lparr>status_p := WaitingApproval, current_domain := None\<rparr>
           in (None, add_log ts ''success''
                    (Extraction_complete (length (pending_approvals job)) (failed_p job)) job)))"

text \<open>
  The state that \<open>accept_extracted\<close> works on: the module's dictionary
  \<open>processing_jobs\<close> and the database. A request ends with a response (\<open>None\<close>),
  with an \<open>HTTPException\<close>, or with an exception of the sink that
  \<open>except Exception\<close> lets through; the state after the request is part of the
  result in each case.
\<close>

record 'd api_state =
  processing_jobs :: "string \<rightharpoonup> 'd api_job"
  sqlite_db :: "'d database"

datatype failure = HTTPException nat string | Uncaught exn

record accept_input =
  in_job_id :: string
  in_domain :: string
  accept :: bool

text \<open>The test that ends \<open>accept_extracted\<close>.\<close>

definition finish_if_done :: "'d api_job \<Rightarrow> 'd api_job" where
  "finish_if_done job =
     (if length (pending_approvals job) = 0 \<and> completed_p job + failed_p job \<ge> total_p job
      then job\<lparr>status_p := Completed\<rparr> else job)"

definition put_job :: "string \<Rightarrow> 'd api_job \<Rightarrow> 'd api_state \<Rightarrow> 'd api_state" where
  "put_job jid job st = st\<lparr>processing_jobs := (processing_jobs st)(jid \<mapsto> job)\<rparr>"

definition accept_extracted ::
  "(string \<Rightarrow> 'd \<Rightarrow> exn option) \<Rightarrow> string \<Rightarrow> accept_input \<Rightarrow> 'd api_state
     \<Rightarrow> failure option \<times> 'd api_state" where
  "accept_extracted failing ts inp st =
     (case processing_jobs st (in_job_id inp) of
        None \<Rightarrow> (Some (HTTPException 404 ''Job not found''), st)
      | Some job \<Rightarrow>
          (case map_of (pending_approvals job) (in_domain inp) of
             None \<Rightarrow> (Some (HTTPException 404
                       (''Domain '' @ in_domain inp @ '' not in pending approvals'')), st)
           | Some x \<Rightarrow>
               (let d = in_domain inp;
                    job = job\<lparr>pending_approvals := dict_remove d (pending_approvals job)\<rparr>
                in if accept inp
                   then (case save_extracted_data failing d x (sqlite_db st) of
                           Inr db' \<Rightarrow>
                             (None, put_job (in_job_id inp)
                                (finish_if_done (add_log ts ''success'' (Approved_and_saved d)
                                   (job\<lparr>approved_data := dict_set d x (approved_data job),
                                         completed_p := completed_p job + 1\<rparr>)))
                                (st\<lparr>sqlite_db := db'\<rparr>))
                         | Inl (Exception msg) \<Rightarrow>
                             (None, put_job (in_job_id inp)
                                (finish_if_done (add_log ts ''error'' (Failed_to_save d msg)
                                   (job\<lparr>failed_p := failed_p job + 1\<rparr>))) st)
                         | Inl e \<Rightarrow> (Some (Uncaught e), put_job (in_job_id inp) job st))
                   else (None, put_job (in_job_id inp)
                           (finish_if_done (add_log ts ''warning'' (Rejected d)
                              (job\<lparr>rejected_domains := rejected_domains job @ [d],
                                    completed_p := completed_p job + 1\<rparr>))) st))))"






section \<open>The worker (worker\_new.py, multi\_worker.py)\<close>

text \<open>
  \<open>extract_profile\<close> is the extraction stage: it yields a profile, an empty
  dictionary (\<open>None\<close>, which \<open>if profile:\<close> takes for false), or raises. Decoding the
  \<open>tech_stack\<close> column, which falls back to the empty list and cannot raise, is part
  of it. The clock is read at the start (\<open>t0\<close>) and at the end (\<open>t1\<close>) of a task.
\<close>

type_synonym 'd extractor = "string \<Rightarrow> string \<Rightarrow> string \<Rightarrow> exn + 'd option"

text \<open>The \<open>except Exception as e\<close> clause of \<open>process_once\<close>.\<close>

definition on_exception ::
  "string \<Rightarrow> timestamp \<Rightarrow> timestamp \<Rightarrow> 'd database \<Rightarrow> exn \<Rightarrow> exn option \<times> 'd database" where
  "on_exception d t0 t1 db e =
     (case e of
        Exception msg \<Rightarrow>
          (None, insert_metric d t0 t1 (t1 - t0) False (Some (take 500 msg))
                   (set_raw_status d FAILED t1 db))
      | _ \<Rightarrow> (Some e, db))"

text \<open>The body of the loop over the claimed rows.\<close>

definition process_row ::
  "'d extractor \<Rightarrow> (string \<Rightarrow> 'd \<Rightarrow> exn option) \<Rightarrow> timestamp \<Rightarrow> timestamp \<Rightarrow> 'd database
     \<Rightarrow> pending_row \<Rightarrow> exn option \<times> 'd database" where
  "process_row extract_profile failing t0 t1 db row =
     (let d = row_domain row
      in case extract_profile d (row_clean_text row) (row_tech_stack row) of
           Inr (Some profile) \<Rightarrow>
             (case save_extracted_data failing d profile db of
                Inr db' \<Rightarrow>
                  (None, insert_metric d t0 t1 (t1 - t0) True None (set_raw_status d DONE t1 db'))
              | Inl e \<Rightarrow> on_exception d t0 t1 db e)
         | Inr None \<Rightarrow>
             (None, insert_metric d t0 t1 (t1 - t0) False (Some ''No data extracted'')
                      (set_raw_status d DONE t1 db))
         | Inl e \<Rightarrow> on_exception d t0 t1 db e)"

fun process_rows ::
  "'d extractor \<Rightarrow> (string \<Rightarrow> 'd \<Rightarrow> exn option) \<Rightarrow> timestamp \<Rightarrow> timestamp \<Rightarrow> 'd database
     \<Rightarrow> pending_row list \<Rightarrow> exn option \<times> 'd database" where
  "process_rows extract_profile failing t0 t1 db [] = (None, db)"
| "process_rows extract_profile failing t0 t1 db (row # rows) =
     (case process_row extract_profile failing t0 t1 db row of
        (Some e, db') \<Rightarrow> (Some e, db')
      | (None, db') \<Rightarrow> process_rows extract_profile failing t0 t1 db' rows)"

text \<open>
  \<open>process_once\<close>: the number of rows processed, or the exception that escapes, and
  the database as the call leaves it. The worker id is drawn at random and is a
  parameter.
\<close>

definition process_once ::
  "'d extractor \<Rightarrow> (string \<Rightarrow> 'd \<Rightarrow> exn option) \<Rightarrow> string \<Rightarrow> timestamp \<Rightarrow> timestamp \<Rightarrow> 'd database
     \<Rightarrow> (exn + nat) \<times> 'd database" where
  "process_once extract_profile failing worker_id t0 t1 db =
     (let (pending, tbl) = claim_pending_raw worker_id 1 t0 (raw_scrapes db);
          db = db\<lparr>raw_scrapes := tbl\<rparr>
      in if pending = [] then (Inr 0, db)
         else (case process_rows extract_profile failing t0 t1 db pending of
                 (Some e, db') \<Rightarrow> (Inl e, db')
               | (None, db') \<Rightarrow> (Inr (length pending), db')))"

text \<open>
  One turn of the loop of \<open>worker_process\<close>: go on (after a pause when nothing was
  processed or an \<open>Exception\<close> was logged), leave the loop on \<open>KeyboardInterrupt\<close>, or
  let the exception through.
\<close>

datatype loop_action = Continue | Break

definition worker_turn ::
  "'d extractor \<Rightarrow> (string \<Rightarrow> 'd \<Rightarrow> exn option) \<Rightarrow> string \<Rightarrow> timestamp \<Rightarrow> timestamp \<Rightarrow> 'd database
     \<Rightarrow> (exn + loop_action) \<times> 'd database" where
  "worker_turn extract_profile failing worker_id t0 t1 db =
     (case process_once extract_profile failing worker_id t0 t1 db of
        (Inr processed, db') \<Rightarrow> (Inr Continue, db')
      | (Inl KeyboardInterrupt, db') \<Rightarrow> (Inr Break, db')
      | (Inl (Exception msg), db') \<Rightarrow> (Inr Continue, db')
      | (Inl e, db') \<Rightarrow> (Inl e, db'))"

text \<open>A collaborator raises only exceptions of class \<open>Exception\<close>.\<close>

definition raises_only_Exception :: "exn \<Rightarrow> bool" where
  "raises_only_Exception e = (case e of Exception msg \<Rightarrow> True | _ \<Rightarrow> False)"

section \<open>Concrete collaborators and states\<close>

definition sink_ok :: "string \<Rightarrow> string \<Rightarrow> exn option" where
  "sink_ok d profile = None"

definition sink_down :: "string \<Rightarrow> string \<Rightarrow> exn option" where
  "sink_down d profile = Some (Exception ''database is locked'')"

definition extract_ok :: "string extractor" where
  "extract_ok d text stack = Inr (Some (''profile of '' @ d))"

definition extract_raises :: "string extractor" where
  "extract_raises d text stack = Inl (Exception (replicate 600 CHR ''x''))"

definition agent_fails :: "string \<Rightarrow> exn + string agent_state" where
  "agent_fails d =
     Inr \<lparr>extracted_data = None, agent_status = ''scrape_failed'', agent_error = ''timeout''\<rparr>"

definition example_db :: "string database" where
  "example_db = \<lparr>raw_scrapes = example_table, metrics = [], profiles = []\<rparr>"

definition example_job :: "string api_job" where
  "example_job =
     \<lparr>status_p = WaitingApproval, total_p = 2, completed_p = 0, failed_p = 1,
      current_domain = None, logs = [], pending_approvals = [(''a.com'', ''profile of a.com'')],
      approved_data = [], rejected_domains = []\<rparr>"

definition example_state :: "string api_state" where
  "example_state = \<lparr>processing_jobs = [''job-1'' \<mapsto> example_job], sqlite_db = example_db\<rparr>"



text \<open>The server after the background task of a job whose only domain failed.\<close>

definition all_failed_state :: "string api_state" where
  "all_failed_state =
     \<lparr>processing_jobs =
        [''job-2'' \<mapsto> snd (process_domains_background agent_fails ''12:00:00'' [''a.com''])],
      sqlite_db = example_db\<rparr>"
section \<open>Claiming (C1)\<close>

lemma foldl_mark_processing:
  "foldl (mark_processing now) tbl rows =
     map (\<lambda>r. if domain r \<in> row_domain ` set rows \<and> status r = READY
               then r\<lparr>status := PROCESSING, updated_at := now\<rparr> else r) tbl"
proof (induction rows arbitrary: tbl)
  case Nil
  show ?case by (simp add: map_idI)
next
  case (Cons row rows)
  show ?case
    unfolding foldl_Cons Cons.IH
    by (auto simp: mark_processing_def)
qed

lemma claim_rows_ready:
  "row_domain ` set (fst (claim_pending_raw w l now tbl))
     \<subseteq> domain ` {r \<in> set tbl. status r = READY}"
proof -
  have "set (sql_limit l (filter (\<lambda>r. status r = READY) tbl)) \<subseteq> {r \<in> set tbl. status r = READY}"
    by (auto simp: sql_limit_def dest: in_set_takeD)
  moreover have "row_domain ` set (fst (claim_pending_raw w l now tbl))
      = domain ` set (sql_limit l (filter (\<lambda>r. status r = READY) tbl))"
    by (simp add: claim_pending_raw_def Let_def image_image select_columns_def)
  ultimately show ?thesis
    by (simp only: image_mono)
qed

lemma claim_no_ready_left:
  assumes "r \<in> set (snd (claim_pending_raw w l now tbl))" and "status r = READY"
  shows "domain r \<notin> row_domain ` set (fst (claim_pending_raw w l now tbl))"
  using assms
  by (auto simp: claim_pending_raw_def Let_def foldl_mark_processing split: if_splits)

lemma claim_domains: "map domain (snd (claim_pending_raw w l now tbl)) = map domain tbl"
  by (simp add: claim_pending_raw_def Let_def foldl_mark_processing comp_def if_distrib cong: if_cong)

lemma claim_primary_key: "primary_key tbl \<Longrightarrow> primary_key (snd (claim_pending_raw w l now tbl))"
  by (simp add: primary_key_def claim_domains)

lemma primary_key_inj: "primary_key tbl \<Longrightarrow> r \<in> set tbl \<Longrightarrow> r' \<in> set tbl \<Longrightarrow> domain r = domain r' \<Longrightarrow> r = r'"
  unfolding primary_key_def by (simp add: distinct_map inj_on_def)

lemma claim_marks_processing:
  assumes pk: "primary_key tbl"
    and r': "r' \<in> set (snd (claim_pending_raw w l now tbl))"
    and k: "domain r' \<in> row_domain ` set (fst (claim_pending_raw w l now tbl))"
  shows "status r' = PROCESSING \<and> updated_at r' = now"
proof -
  let ?keys = "row_domain ` set (fst (claim_pending_raw w l now tbl))"
  let ?f = "\<lambda>r. if domain r \<in> ?keys \<and> status r = READY
               then r\<lparr>status := PROCESSING, updated_at := now\<rparr> else r"
  have tbl': "snd (claim_pending_raw w l now tbl) = map ?f tbl"
    by (simp add: claim_pending_raw_def Let_def foldl_mark_processing)
  from r' obtain r where r: "r \<in> set tbl" and r'_eq: "r' = ?f r"
    unfolding tbl' by auto
  have dom: "domain r' = domain r" unfolding r'_eq by simp
  from k claim_rows_ready[of w l now tbl] obtain r0
    where r0: "r0 \<in> set tbl" "status r0 = READY" "domain r0 = domain r'"
    by auto
  have "r0 = r" using primary_key_inj[OF pk r0(1) r] r0(3) dom by simp
  then have "status r = READY" using r0(2) by simp
  moreover have "domain r \<in> ?keys" using k dom by simp
  ultimately show ?thesis unfolding r'_eq by simp
qed

lemma claim_nothing_ready:
  assumes "\<forall>r \<in> set tbl. status r \<noteq> READY"
  shows "claim_pending_raw w l now tbl = ([], tbl)"
proof -
  have "filter (\<lambda>r. status r = READY) tbl = []" using assms by (simp add: filter_empty_conv)
  then show ?thesis by (simp add: claim_pending_raw_def sql_limit_def)
qed

lemma claim_twice_disjoint:
  "row_domain ` set (fst (claim_pending_raw w1 l1 t1 tbl))
     \<inter> row_domain ` set (fst (claim_pending_raw w2 l2 t2 (snd (claim_pending_raw w1 l1 t1 tbl)))) = {}"
proof -
  let ?tbl1 = "snd (claim_pending_raw w1 l1 t1 tbl)"
  { fix k assume k1: "k \<in> row_domain ` set (fst (claim_pending_raw w1 l1 t1 tbl))"
      and k2: "k \<in> row_domain ` set (fst (claim_pending_raw w2 l2 t2 ?tbl1))"
    from k2 claim_rows_ready[of w2 l2 t2 ?tbl1] obtain r
      where r: "r \<in> set ?tbl1" "status r = READY" "domain r = k" by auto
    from claim_no_ready_left[OF r(1) r(2)] k1 r(3) have False by simp }
  then show ?thesis by blast
qed

lemma claim_length: "0 \<le> l \<Longrightarrow> int (length (fst (claim_pending_raw w l now tbl))) \<le> l"
  by (simp add: claim_pending_raw_def sql_limit_def Let_def)

text \<open>
  Claim C1. On a table that respects its primary key, a call of \<open>claim_pending_raw\<close>
  returns only rows that were \<open>READY\<close> (the spec's PENDING) when it was called, leaves
  every returned domain \<open>PROCESSING\<close> (CLAIMED) in the table, changes no key, and
  returns the empty list and the table as it was when no row is \<open>READY\<close>. Hence the
  keys returned by a call and by a following call, for any worker ids, limits and
  times, are disjoint. The calls are serialised by the write lock of
  \<open>BEGIN IMMEDIATE\<close>, so two concurrent calls are two calls in one of the two orders.
\<close>

theorem claim_pending_raw_no_double_claim:
  assumes "primary_key tbl"
  shows "(\<forall>row \<in> set (fst (claim_pending_raw w l now tbl)).
            \<exists>r \<in> set tbl. domain r = row_domain row \<and> status r = READY)
       \<and> (\<forall>r \<in> set (snd (claim_pending_raw w l now tbl)).
            domain r \<in> row_domain ` set (fst (claim_pending_raw w l now tbl))
              \<longrightarrow> status r = PROCESSING)
       \<and> map domain (snd (claim_pending_raw w l now tbl)) = map domain tbl
       \<and> ((\<forall>r \<in> set tbl. status r \<noteq> READY) \<longrightarrow> claim_pending_raw w l now tbl = ([], tbl))
       \<and> row_domain ` set (fst (claim_pending_raw w l now tbl))
            \<inter> row_domain ` set (fst (claim_pending_raw w2 l2 now2
                                       (snd (claim_pending_raw w l now tbl)))) = {}"
proof (intro conjI)
  show "\<forall>row \<in> set (fst (claim_pending_raw w l now tbl)).
            \<exists>r \<in> set tbl. domain r = row_domain row \<and> status r = READY"
  proof
    fix row assume "row \<in> set (fst (claim_pending_raw w l now tbl))"
    then have "row_domain row \<in> domain ` {r \<in> set tbl. status r = READY}"
      using claim_rows_ready[of w l now tbl] by blast
    then show "\<exists>r \<in> set tbl. domain r = row_domain row \<and> status r = READY"
      by force
  qed
  show "\<forall>r \<in> set (snd (claim_pending_raw w l now tbl)).
            domain r \<in> row_domain ` set (fst (claim_pending_raw w l now tbl))
              \<longrightarrow> status r = PROCESSING"
    using claim_marks_processing[OF assms] by blast
  show "map domain (snd (claim_pending_raw w l now tbl)) = map domain tbl"
    by (rule claim_domains)
  show "(\<forall>r \<in> set tbl. status r \<noteq> READY) \<longrightarrow> claim_pending_raw w l now tbl = ([], tbl)"
    using claim_nothing_ready by blast
  show "row_domain ` set (fst (claim_pending_raw w l now tbl))
            \<inter> row_domain ` set (fst (claim_pending_raw w2 l2 now2
                                       (snd (claim_pending_raw w l now tbl)))) = {}"
    by (rule claim_twice_disjoint)
qed

theorem claim_pending_raw_no_double_claim_witness:
  "primary_key example_table
   \<and> map row_domain (fst (claim_pending_raw ''worker_1'' 1 10 example_table)) = [''a.com'']
   \<and> map status (snd (claim_pending_raw ''worker_1'' 1 10 example_table))
        = [PROCESSING, PROCESSING, DONE, READY, FAILED, PROCESSING]
   \<and> map row_domain (fst (claim_pending_raw ''worker_2'' 5 11
          (snd (claim_pending_raw ''worker_1'' 1 10 example_table)))) = [''d.com'']
   \<and> row_domain ` set (fst (claim_pending_raw ''worker_1'' 1 10 example_table))
        \<inter> row_domain ` set (fst (claim_pending_raw ''worker_2'' 5 11
             (snd (claim_pending_raw ''worker_1'' 1 10 example_table)))) = {}"
proof -
  have pk: "primary_key example_table"
    by (simp add: primary_key_def example_table_def)
  have c1: "claim_pending_raw ''worker_1'' 1 10 example_table =
     ([\<lparr>row_domain = ''a.com'', row_clean_text = ''A'', row_tech_stack = ''[]''\<rparr>],
      example_table[0 := (example_table ! 0)\<lparr>status := PROCESSING, updated_at := 10\<rparr>])"
    by (simp add: claim_pending_raw_def sql_limit_def select_columns_def mark_processing_def
        example_table_def)
  have c2: "fst (claim_pending_raw ''worker_2'' 5 11
      (example_table[0 := (example_table ! 0)\<lparr>status := PROCESSING, updated_at := 10\<rparr>]))
      = [\<lparr>row_domain = ''d.com'', row_clean_text = ''D'', row_tech_stack = ''[]''\<rparr>]"
    by (simp add: claim_pending_raw_def sql_limit_def select_columns_def example_table_def)
  have st: "map status (example_table[0 := (example_table ! 0)\<lparr>status := PROCESSING, updated_at := 10\<rparr>])
      = [PROCESSING, PROCESSING, DONE, READY, FAILED, PROCESSING]"
    by (simp add: example_table_def)
  show ?thesis
    using pk claim_pending_raw_no_double_claim[OF pk, of "''worker_1''" 1 10 "''worker_2''" 5 11]
    unfolding c1 snd_conv fst_conv c2 st
    by simp
qed

section \<open>Lease expiry (C7)\<close>

lemma release_count:
  "fst (release_stuck_processing t now tbl)
     = length (filter (\<lambda>r. status r = PROCESSING \<and> updated_at r < now - t) tbl)"
  by (simp add: release_stuck_processing_def Let_def stuck_def[abs_def])

lemma release_nth:
  assumes "i < length tbl"
  shows "snd (release_stuck_processing t now tbl) ! i =
           (if status (tbl ! i) = PROCESSING \<and> updated_at (tbl ! i) < now - t
            then (tbl ! i)\<lparr>status := READY, updated_at := now\<rparr> else tbl ! i)"
  using assms by (simp add: release_stuck_processing_def Let_def stuck_def)

text \<open>
  Claim C7. \<open>release_stuck_processing\<close> returns the number of rows that are
  \<open>PROCESSING\<close> (CLAIMED) with \<open>updated_at\<close>, the lease timestamp set by the claim,
  strictly before the sweep time minus the timeout; it sets exactly those rows to
  \<open>READY\<close> (PENDING), stamping them with the sweep time, and leaves every other row as
  it was: a \<open>PROCESSING\<close> row whose lease is still fresh, and every \<open>READY\<close>,
  \<open>DONE\<close> or \<open>FAILED\<close> row. The table stores no owner, so the reset row carries
  none.
\<close>

theorem release_stuck_processing_exact:
  "fst (release_stuck_processing t now tbl)
     = length (filter (\<lambda>r. status r = PROCESSING \<and> updated_at r < now - t) tbl)
   \<and> length (snd (release_stuck_processing t now tbl)) = length tbl
   \<and> (\<forall>i < length tbl.
        (status (tbl ! i) = PROCESSING \<and> updated_at (tbl ! i) < now - t
           \<longrightarrow> snd (release_stuck_processing t now tbl) ! i
                 = (tbl ! i)\<lparr>status := READY, updated_at := now\<rparr>)
      \<and> (status (tbl ! i) = PROCESSING \<and> now - t \<le> updated_at (tbl ! i)
           \<longrightarrow> snd (release_stuck_processing t now tbl) ! i = tbl ! i)
      \<and> (status (tbl ! i) \<noteq> PROCESSING
           \<longrightarrow> snd (release_stuck_processing t now tbl) ! i = tbl ! i))"
proof (intro conjI allI impI)
  show "fst (release_stuck_processing t now tbl)
     = length (filter (\<lambda>r. status r = PROCESSING \<and> updated_at r < now - t) tbl)"
    by (rule release_count)
  show "length (snd (release_stuck_processing t now tbl)) = length tbl"
    by (simp add: release_stuck_processing_def Let_def)
next
  fix i assume "i < length tbl" "status (tbl ! i) = PROCESSING \<and> updated_at (tbl ! i) < now - t"
  then show "snd (release_stuck_processing t now tbl) ! i
                 = (tbl ! i)\<lparr>status := READY, updated_at := now\<rparr>"
    by (simp add: release_nth)
next
  fix i assume "i < length tbl" "status (tbl ! i) = PROCESSING \<and> now - t \<le> updated_at (tbl ! i)"
  then show "snd (release_stuck_processing t now tbl) ! i = tbl ! i"
    by (simp add: release_nth)
next
  fix i assume "i < length tbl" "status (tbl ! i) \<noteq> PROCESSING"
  then show "snd (release_stuck_processing t now tbl) ! i = tbl ! i"
    by (simp add: release_nth)
qed

theorem release_stuck_processing_exact_witness:
  "fst (release_stuck_processing 900 1000 example_table) = 1
   \<and> map status (snd (release_stuck_processing 900 1000 example_table))
        = [READY, READY, DONE, READY, FAILED, PROCESSING]
   \<and> map updated_at (snd (release_stuck_processing 900 1000 example_table))
        = [0, 1000, 6, 3, 4, 950]
   \<and> (1::nat) < length example_table
   \<and> status (example_table ! 1) = PROCESSING \<and> updated_at (example_table ! 1) < 1000 - 900
   \<and> snd (release_stuck_processing 900 1000 example_table) ! 1
        = (example_table ! 1)\<lparr>status := READY, updated_at := 1000\<rparr>"
  using release_stuck_processing_exact[of 900 1000 example_table]
  by (simp add: release_stuck_processing_def stuck_def example_table_def)

section \<open>Registration (C2)\<close>

text \<open>
  Claim C2 as stated fails: registering \<open>c.com\<close>, whose row is \<open>DONE\<close>, puts the
  row back to \<open>READY\<close>; the table is not what it was.
\<close>

theorem upsert_overwrites_counterexample:
  "map status (upsert_raw_scrape ''c.com'' ''c.html'' ''C'' ''[]'' READY 7 example_table)
     = [READY, PROCESSING, READY, READY, FAILED, PROCESSING]
   \<and> map status example_table = [READY, PROCESSING, DONE, READY, FAILED, PROCESSING]
   \<and> upsert_raw_scrape ''c.com'' ''c.html'' ''C'' ''[]'' READY 7 example_table \<noteq> example_table"
  by (simp add: upsert_raw_scrape_def example_table_def)

lemma map_domain_upsert:
  "map domain (upsert_raw_scrape d sp ct ts st now tbl)
     = (if d \<in> set (map domain tbl) then map domain tbl else map domain tbl @ [d])"
  by (simp add: upsert_raw_scrape_def comp_def if_distrib cong: if_cong)

lemma upsert_domains:
  "set (map domain (upsert_raw_scrape d sp ct ts st now tbl)) = insert d (set (map domain tbl))"
  unfolding map_domain_upsert by auto

lemma upsert_primary_key:
  "primary_key tbl \<Longrightarrow> primary_key (upsert_raw_scrape d sp ct ts st now tbl)"
  unfolding primary_key_def map_domain_upsert by simp

lemma overwrite_same:
  assumes "snapshot_path x = sp" "clean_text x = ct" "tech_stack x = ts" "status x = st"
  shows "x\<lparr>snapshot_path := sp, clean_text := ct, tech_stack := ts, status := st, updated_at := t2\<rparr>
           = x\<lparr>updated_at := t2\<rparr>"
  by (rule raw_scrape.equality) (simp_all add: assms)

lemma upsert_row_fields:
  assumes x: "x \<in> set (upsert_raw_scrape d sp ct ts st now tbl)" and dx: "domain x = d"
  shows "snapshot_path x = sp \<and> clean_text x = ct \<and> tech_stack x = ts \<and> status x = st
         \<and> updated_at x = now"
proof (cases "d \<in> set (map domain tbl)")
  case True
  let ?f = "\<lambda>r. if domain r = d
                      then r\<lparr>snapshot_path := sp, clean_text := ct, tech_stack := ts,
                             status := st, updated_at := now\<rparr>
                      else r"
  from True x have "x \<in> set (map ?f tbl)" by (simp only: upsert_raw_scrape_def if_True)
  then have "x \<in> ?f ` set tbl" by (simp only: set_map)
  then obtain r where r: "x = ?f r" by (rule imageE)
  show ?thesis
  proof (cases "domain r = d")
    case True
    then show ?thesis using r by simp
  next
    case False
    then have "x = r" using r by simp
    then show ?thesis using False dx by simp
  qed
next
  case False
  from False x have "x \<in> set (tbl @ [\<lparr>domain = d, snapshot_path = sp, clean_text = ct, tech_stack = ts,
                    status = st, created_at = now, updated_at = now\<rparr>])"
    by (simp only: upsert_raw_scrape_def if_False)
  then have "x \<in> set tbl \<or> x = \<lparr>domain = d, snapshot_path = sp, clean_text = ct, tech_stack = ts,
                    status = st, created_at = now, updated_at = now\<rparr>"
    by (simp only: set_append set_simps) blast
  moreover have "x \<notin> set tbl" using False dx by auto
  ultimately show ?thesis by simp
qed

lemma upsert_twice:
  "upsert_raw_scrape d sp ct ts st t2 (upsert_raw_scrape d sp ct ts st t1 tbl)
     = map (\<lambda>r. if domain r = d then r\<lparr>updated_at := t2\<rparr> else r)
         (upsert_raw_scrape d sp ct ts st t1 tbl)"
proof -
  have "d \<in> set (map domain (upsert_raw_scrape d sp ct ts st t1 tbl))"
    by (simp only: upsert_domains insertI1)
  then have "upsert_raw_scrape d sp ct ts st t2 (upsert_raw_scrape d sp ct ts st t1 tbl)
     = map (\<lambda>r. if domain r = d
                      then r\<lparr>snapshot_path := sp, clean_text := ct, tech_stack := ts,
                             status := st, updated_at := t2\<rparr>
                      else r) (upsert_raw_scrape d sp ct ts st t1 tbl)"
    by (simp add: upsert_raw_scrape_def[of d sp ct ts st t2])
  also have "\<dots> = map (\<lambda>r. if domain r = d then r\<lparr>updated_at := t2\<rparr> else r)
         (upsert_raw_scrape d sp ct ts st t1 tbl)"
  proof (rule map_cong[OF refl])
    fix x assume x: "x \<in> set (upsert_raw_scrape d sp ct ts st t1 tbl)"
    show "(if domain x = d
           then x\<lparr>snapshot_path := sp, clean_text := ct, tech_stack := ts,
                  status := st, updated_at := t2\<rparr> else x)
        = (if domain x = d then x\<lparr>updated_at := t2\<rparr> else x)"
    proof (cases "domain x = d")
      case True
      from upsert_row_fields[OF x True]
      have "x\<lparr>snapshot_path := sp, clean_text := ct, tech_stack := ts,
                  status := st, updated_at := t2\<rparr> = x\<lparr>updated_at := t2\<rparr>"
        by (intro overwrite_same) simp_all
      with True show ?thesis by (simp only: if_True)
    next
      case False
      then show ?thesis by (simp only: if_False)
    qed
  qed
  finally show ?thesis .
qed

lemma upsert_existing:
  assumes "r \<in> set tbl" "domain r = d"
  shows "upsert_raw_scrape d sp ct ts st now tbl
     = map (\<lambda>r. if domain r = d
                      then r\<lparr>snapshot_path := sp, clean_text := ct, tech_stack := ts,
                             status := st, updated_at := now\<rparr>
                      else r) tbl"
proof -
  have "d \<in> domain ` set tbl" using assms by blast
  then have "d \<in> set (map domain tbl)" by (simp only: set_map)
  then show ?thesis by (simp only: upsert_raw_scrape_def if_True)
qed

text \<open>
  Claim C2, amended. Registration is an upsert. A row whose key is registered again keeps
  its key, place and \<open>created_at\<close> and has \<open>snapshot_path\<close>, \<open>clean_text\<close>,
  \<open>tech_stack\<close> and \<open>status\<close> replaced by the submitted values and \<open>updated_at\<close>
  by the current time; every other row is untouched. Registering the same key with the
  same values a second time changes nothing but that row's \<open>updated_at\<close>, so at the
  same clock reading twice is the same as once.
\<close>

theorem upsert_raw_scrape_idempotent_up_to_timestamp:
  "(\<forall>i < length tbl. domain (tbl ! i) = d \<longrightarrow>
        upsert_raw_scrape d sp ct ts st now tbl ! i
          = (tbl ! i)\<lparr>snapshot_path := sp, clean_text := ct, tech_stack := ts,
                       status := st, updated_at := now\<rparr>)
   \<and> (\<forall>i < length tbl. domain (tbl ! i) \<noteq> d \<longrightarrow>
        upsert_raw_scrape d sp ct ts st now tbl ! i = tbl ! i)
   \<and> upsert_raw_scrape d sp ct ts st t2 (upsert_raw_scrape d sp ct ts st now tbl)
        = map (\<lambda>r. if domain r = d then r\<lparr>updated_at := t2\<rparr> else r)
            (upsert_raw_scrape d sp ct ts st now tbl)
   \<and> upsert_raw_scrape d sp ct ts st now (upsert_raw_scrape d sp ct ts st now tbl)
        = upsert_raw_scrape d sp ct ts st now tbl"
proof (intro conjI allI impI)
  fix i assume i: "i < length tbl" and d: "domain (tbl ! i) = d"
  then have "tbl ! i \<in> set tbl" by simp
  from upsert_existing[OF this d] i d
  show "upsert_raw_scrape d sp ct ts st now tbl ! i
          = (tbl ! i)\<lparr>snapshot_path := sp, clean_text := ct, tech_stack := ts,
                       status := st, updated_at := now\<rparr>"
    by simp
next
  fix i assume i: "i < length tbl" and d: "domain (tbl ! i) \<noteq> d"
  then show "upsert_raw_scrape d sp ct ts st now tbl ! i = tbl ! i"
    by (simp add: upsert_raw_scrape_def nth_append)
next
  show "upsert_raw_scrape d sp ct ts st t2 (upsert_raw_scrape d sp ct ts st now tbl)
        = map (\<lambda>r. if domain r = d then r\<lparr>updated_at := t2\<rparr> else r)
            (upsert_raw_scrape d sp ct ts st now tbl)"
    by (rule upsert_twice)
next
  have "map (\<lambda>r. if domain r = d then r\<lparr>updated_at := now\<rparr> else r)
            (upsert_raw_scrape d sp ct ts st now tbl) = upsert_raw_scrape d sp ct ts st now tbl"
  proof (rule map_idI)
    fix x assume "x \<in> set (upsert_raw_scrape d sp ct ts st now tbl)"
    then show "(if domain x = d then x\<lparr>updated_at := now\<rparr> else x) = x"
    proof (cases "domain x = d")
      case True
      from upsert_row_fields[OF \<open>x \<in> set (upsert_raw_scrape d sp ct ts st now tbl)\<close> True]
      have "updated_at x = now" by simp
      then have "x\<lparr>updated_at := now\<rparr> = x" by (intro raw_scrape.equality) simp_all
      with True show ?thesis by simp
    next
      case False
      then show ?thesis by (simp only: if_False)
    qed
  qed
  then show "upsert_raw_scrape d sp ct ts st now (upsert_raw_scrape d sp ct ts st now tbl)
        = upsert_raw_scrape d sp ct ts st now tbl"
    by (simp only: upsert_twice)
qed

theorem upsert_raw_scrape_idempotent_up_to_timestamp_witness:
  "(2::nat) < length example_table \<and> domain (example_table ! 2) = ''c.com''
   \<and> upsert_raw_scrape ''c.com'' ''c2.html'' ''C2'' ''[]'' READY 7 example_table ! 2
       = \<lparr>domain = ''c.com'', snapshot_path = ''c2.html'', clean_text = ''C2'', tech_stack = ''[]'',
          status = READY, created_at = 2, updated_at = 7\<rparr>
   \<and> (0::nat) < length example_table \<and> domain (example_table ! 0) \<noteq> ''c.com''
   \<and> upsert_raw_scrape ''c.com'' ''c2.html'' ''C2'' ''[]'' READY 7 example_table ! 0 = example_table ! 0"
  using upsert_raw_scrape_idempotent_up_to_timestamp[of example_table "''c.com''" "''c2.html''" "''C2''" "''[]''" READY 7 7]
  by (simp add: example_table_def)

section \<open>Key normalisation (C10)\<close>

lemma of_char_lt_256: "(of_char c :: nat) < 256"
  by (cases c) (simp add: of_char_def)

lemma of_char_lower_char:
  "(of_char (lower_char c) :: nat) =
     (let n = (of_char c :: nat)
      in if (65 \<le> n \<and> n \<le> 90) \<or> (192 \<le> n \<and> n \<le> 222 \<and> n \<noteq> 215) then n + 32 else n)"
  by (simp add: lower_char_def Let_def of_char_of)

lemma lower_char_idem: "lower_char (lower_char c) = lower_char c"
proof -
  have "(of_char (lower_char (lower_char c)) :: nat) = of_char (lower_char c)"
    by (simp add: of_char_lower_char[of "lower_char c"] Let_def)
       (auto simp: of_char_lower_char Let_def)
  then show ?thesis by (simp only: of_char_eq_iff)
qed





lemma lower_idem: "lower (lower s) = lower s"
  by (simp add: lower_def lower_char_idem)













lemma set_strip: "set (strip s) \<subseteq> set s"
  unfolding strip_def by (auto dest!: set_dropWhileD)




lemma split_run_nonempty: "t \<in> set (split_run cur s) \<Longrightarrow> t \<noteq> []"
  by (induction cur s rule: split_run.induct) (auto split: if_splits)

lemma split_run_subset: "t \<in> set (split_run cur s) \<Longrightarrow> set t \<subseteq> set cur \<union> set s"
proof (induction cur s rule: split_run.induct)
  case (1 cur)
  then show ?case by (simp split: if_splits)
next
  case (2 cur c cs)
  show ?case
  proof (cases "isspace c")
    case sp: True
    show ?thesis
    proof (cases "cur = []")
      case True
      with sp "2.prems" have "t \<in> set (split_run [] cs)" by simp
      from "2.IH"(1)[OF sp True this] show ?thesis by auto
    next
      case False
      with sp "2.prems" have "t = cur \<or> t \<in> set (split_run [] cs)" by simp
      then show ?thesis
      proof
        assume "t = cur" then show ?thesis by auto
      next
        assume "t \<in> set (split_run [] cs)"
        from "2.IH"(2)[OF sp False this] show ?thesis by auto
      qed
    qed
  next
    case False
    with "2.prems" have "t \<in> set (split_run (cur @ [c]) cs)" by simp
    from "2.IH"(3)[OF False this] show ?thesis by auto
  qed
qed

lemma split_run_no_space_in_token:
  "\<forall>x \<in> set cur. \<not> isspace x \<Longrightarrow> t \<in> set (split_run cur s) \<Longrightarrow> \<forall>x \<in> set t. \<not> isspace x"
proof (induction cur s rule: split_run.induct)
  case (1 cur)
  then show ?case by (simp split: if_splits)
next
  case (2 cur c cs)
  show ?case
  proof (cases "isspace c")
    case sp: True
    show ?thesis
    proof (cases "cur = []")
      case True
      with sp "2.prems" have "t \<in> set (split_run [] cs)" by simp
      from "2.IH"(1)[OF sp True _ this] show ?thesis by simp
    next
      case False
      with sp "2.prems" have "t = cur \<or> t \<in> set (split_run [] cs)" by simp
      then show ?thesis
      proof
        assume "t = cur" then show ?thesis using "2.prems"(1) by simp
      next
        assume "t \<in> set (split_run [] cs)"
        from "2.IH"(2)[OF sp False _ this] show ?thesis by simp
      qed
    qed
  next
    case False
    with "2.prems" have t: "t \<in> set (split_run (cur @ [c]) cs)" by simp
    have "\<forall>x \<in> set (cur @ [c]). \<not> isspace x" using "2.prems"(1) False by simp
    from "2.IH"(3)[OF False this t] show ?thesis .
  qed
qed
























section \<open>Rejecting a pending approval (C4)\<close>

lemma dict_remove_absent: "k \<notin> fst ` set (dict_remove k d)"
  unfolding dict_remove_def by auto

lemma length_dict_remove: "length (dict_remove k d) \<le> length d"
  unfolding dict_remove_def by (rule length_filter_le)


lemma accept_extracted_reject:
  assumes job: "processing_jobs st jid = Some job"
    and x: "map_of (pending_approvals job) d = Some x"
  shows "accept_extracted failing ts \<lparr>in_job_id = jid, in_domain = d, accept = False\<rparr> st =
           (None, put_job jid
              (finish_if_done (add_log ts ''warning'' (Rejected d)
                 (job\<lparr>pending_approvals := dict_remove d (pending_approvals job),
                       rejected_domains := rejected_domains job @ [d],
                       completed_p := completed_p job + 1\<rparr>))) st)"
  using assms by (simp add: accept_extracted_def Let_def)

lemma finish_if_done_fields:
  "completed_p (finish_if_done job) = completed_p job"
  "failed_p (finish_if_done job) = failed_p job"
  "total_p (finish_if_done job) = total_p job"
  "pending_approvals (finish_if_done job) = pending_approvals job"
  "approved_data (finish_if_done job) = approved_data job"
  "rejected_domains (finish_if_done job) = rejected_domains job"
  "logs (finish_if_done job) = logs job"
  by (simp_all add: finish_if_done_def)

lemma add_log_fields:
  "completed_p (add_log ts lvl msg job) = completed_p job"
  "failed_p (add_log ts lvl msg job) = failed_p job"
  "total_p (add_log ts lvl msg job) = total_p job"
  "status_p (add_log ts lvl msg job) = status_p job"
  "pending_approvals (add_log ts lvl msg job) = pending_approvals job"
  "approved_data (add_log ts lvl msg job) = approved_data job"
  "rejected_domains (add_log ts lvl msg job) = rejected_domains job"
  by (simp_all add: add_log_def)

text \<open>
  Claim C4 as stated fails: rejecting the pending entry \<open>a.com\<close> of a job that has
  counted one failure so far leaves the failed count at 1 and raises the completed
  count from 0 to 1.
\<close>

theorem reject_counts_completed_counterexample:
  "map_option (\<lambda>job. (completed_p job, failed_p job)) (processing_jobs example_state ''job-1'')
     = Some (0, 1)
   \<and> map_option (\<lambda>job. (completed_p job, failed_p job))
       (processing_jobs
          (snd (accept_extracted sink_ok ''12:00:00''
                  \<lparr>in_job_id = ''job-1'', in_domain = ''a.com'', accept = False\<rparr> example_state))
          ''job-1'')
     = Some (1, 1)"
  by (simp add: accept_extracted_def example_state_def example_job_def put_job_def
      finish_if_done_def add_log_def dict_remove_def Let_def)

text \<open>
  Claim C4, amended. Resolving a pending approval entry with \<open>accept = false\<close>
  answers without error, raises the job's completed count by exactly one, leaves its
  failed count unchanged, removes the entry from the pending approvals, appends the
  key to the rejected domains, adds nothing to the approved data and leaves the
  database, and with it the persistence sink, untouched.
\<close>

theorem reject_resolution:
  assumes "processing_jobs st jid = Some job"
    and "map_of (pending_approvals job) d = Some x"
  shows "\<exists>job'. accept_extracted failing ts \<lparr>in_job_id = jid, in_domain = d, accept = False\<rparr> st
                  = (None, st\<lparr>processing_jobs := (processing_jobs st)(jid \<mapsto> job')\<rparr>)
          \<and> completed_p job' = completed_p job + 1
          \<and> failed_p job' = failed_p job
          \<and> pending_approvals job' = dict_remove d (pending_approvals job)
          \<and> d \<notin> fst ` set (pending_approvals job')
          \<and> rejected_domains job' = rejected_domains job @ [d]
          \<and> approved_data job' = approved_data job"
proof -
  let ?job' = "finish_if_done (add_log ts ''warning'' (Rejected d)
                 (job\<lparr>pending_approvals := dict_remove d (pending_approvals job),
                       rejected_domains := rejected_domains job @ [d],
                       completed_p := completed_p job + 1\<rparr>))"
  have "accept_extracted failing ts \<lparr>in_job_id = jid, in_domain = d, accept = False\<rparr> st
          = (None, st\<lparr>processing_jobs := (processing_jobs st)(jid \<mapsto> ?job')\<rparr>)"
    using accept_extracted_reject[OF assms] by (simp only: put_job_def)
  moreover have "completed_p ?job' = completed_p job + 1" "failed_p ?job' = failed_p job"
    "pending_approvals ?job' = dict_remove d (pending_approvals job)"
    "rejected_domains ?job' = rejected_domains job @ [d]"
    "approved_data ?job' = approved_data job"
    by (simp_all add: finish_if_done_fields add_log_fields)
  moreover have "d \<notin> fst ` set (pending_approvals ?job')"
    by (simp add: finish_if_done_fields add_log_fields dict_remove_absent)
  ultimately show ?thesis by blast
qed

theorem reject_resolution_witness:
  "processing_jobs example_state ''job-1'' = Some example_job
   \<and> map_of (pending_approvals example_job) ''a.com'' = Some ''profile of a.com''
   \<and> (\<exists>job'. accept_extracted sink_ok ''12:00:00''
                 \<lparr>in_job_id = ''job-1'', in_domain = ''a.com'', accept = False\<rparr> example_state
                  = (None, example_state\<lparr>processing_jobs :=
                             (processing_jobs example_state)(''job-1'' \<mapsto> job')\<rparr>)
          \<and> completed_p job' = completed_p example_job + 1
          \<and> failed_p job' = failed_p example_job
          \<and> rejected_domains job' = [''a.com''])"
proof -
  have a: "processing_jobs example_state ''job-1'' = Some example_job"
    by (simp add: example_state_def)
  have b: "map_of (pending_approvals example_job) ''a.com'' = Some ''profile of a.com''"
    by (simp add: example_job_def)
  have c: "rejected_domains example_job = []" by (simp add: example_job_def)
  from reject_resolution[OF a b, of sink_ok "''12:00:00''"] c
  have "\<exists>job'. accept_extracted sink_ok ''12:00:00''
                 \<lparr>in_job_id = ''job-1'', in_domain = ''a.com'', accept = False\<rparr> example_state
                  = (None, example_state\<lparr>processing_jobs :=
                             (processing_jobs example_state)(''job-1'' \<mapsto> job')\<rparr>)
          \<and> completed_p job' = completed_p example_job + 1
          \<and> failed_p job' = failed_p example_job
          \<and> rejected_domains job' = [''a.com'']"
    by auto
  with a b show ?thesis by blast
qed

section \<open>One event on a job of the API server\<close>









section \<open>Monotonic job status (C3)\<close>











section \<open>The counters against the number of keys (C8)\<close>







section \<open>One call of \<open>process_once\<close>\<close>

lemma claim_one_ready:
  assumes "filter (\<lambda>r. status r = READY) tbl = r # rest"
  shows "claim_pending_raw worker_id 1 t0 tbl
           = ([select_columns r], mark_processing t0 tbl (select_columns r))"
  using assms by (simp add: claim_pending_raw_def sql_limit_def)

lemma update_raw_status_sets:
  assumes "r' \<in> set (update_raw_status d st now tbl)" and "domain r' = d"
  shows "status r' = st"
proof -
  from assms(1) obtain r0 where r0: "r0 \<in> set tbl"
    "r' = (if domain r0 = d then r0\<lparr>status := st, updated_at := now\<rparr> else r0)"
    unfolding update_raw_status_def by auto
  show ?thesis
  proof (cases "domain r0 = d")
    case True
    with r0(2) show ?thesis by simp
  next
    case False
    with r0(2) assms(2) show ?thesis by simp
  qed
qed

lemma on_exception_Exception:
  "on_exception d t0 t1 db (Exception msg) =
     (None, insert_metric d t0 t1 (t1 - t0) False (Some (take 500 msg))
              (set_raw_status d FAILED t1 db))"
  by (simp add: on_exception_def)

lemma process_row_extract_raises:
  assumes "extract_profile (row_domain row) (row_clean_text row) (row_tech_stack row)
             = Inl (Exception msg)"
  shows "process_row extract_profile failing t0 t1 db row =
           (None, insert_metric (row_domain row) t0 t1 (t1 - t0) False (Some (take 500 msg))
                    (set_raw_status (row_domain row) FAILED t1 db))"
  using assms by (simp add: process_row_def Let_def on_exception_Exception)

lemma process_row_save_raises:
  assumes "extract_profile (row_domain row) (row_clean_text row) (row_tech_stack row)
             = Inr (Some profile)"
    and "failing (row_domain row) profile = Some (Exception msg)"
  shows "process_row extract_profile failing t0 t1 db row =
           (None, insert_metric (row_domain row) t0 t1 (t1 - t0) False (Some (take 500 msg))
                    (set_raw_status (row_domain row) FAILED t1 db))"
  using assms
  by (simp add: process_row_def Let_def on_exception_Exception save_extracted_data_def)

text \<open>
  What \<open>process_once\<close> returns and leaves behind when the one row it claims ends in
  the \<open>except\<close> clause.
\<close>

lemma process_once_failed:
  assumes ready: "filter (\<lambda>r. status r = READY) (raw_scrapes db) = r # rest"
    and row: "process_row extract_profile failing t0 t1
                (db\<lparr>raw_scrapes := mark_processing t0 (raw_scrapes db) (select_columns r)\<rparr>)
                (select_columns r)
              = (None, insert_metric (domain r) t0 t1 (t1 - t0) False (Some (take 500 msg))
                  (set_raw_status (domain r) FAILED t1
                    (db\<lparr>raw_scrapes := mark_processing t0 (raw_scrapes db) (select_columns r)\<rparr>)))"
  shows "\<exists>db'. process_once extract_profile failing worker_id t0 t1 db = (Inr 1, db')
           \<and> worker_turn extract_profile failing worker_id t0 t1 db = (Inr Continue, db')
           \<and> (\<forall>r' \<in> set (raw_scrapes db'). domain r' = domain r \<longrightarrow> status r' = FAILED)
           \<and> map domain (raw_scrapes db') = map domain (raw_scrapes db)
           \<and> metrics db' = metrics db @
                 [\<lparr>metric_domain = domain r, start_time = t0, end_time = t1,
                   duration_seconds = t1 - t0, metric_success = False,
                   error_msg = Some (take 500 msg)\<rparr>]
           \<and> profiles db' = profiles db"
proof -
  let ?db1 = "db\<lparr>raw_scrapes := mark_processing t0 (raw_scrapes db) (select_columns r)\<rparr>"
  let ?db' = "insert_metric (domain r) t0 t1 (t1 - t0) False (Some (take 500 msg))
                  (set_raw_status (domain r) FAILED t1 ?db1)"
  have once: "process_once extract_profile failing worker_id t0 t1 db = (Inr 1, ?db')"
    using row by (simp add: process_once_def claim_one_ready[OF ready])
  then have turn: "worker_turn extract_profile failing worker_id t0 t1 db = (Inr Continue, ?db')"
    by (simp add: worker_turn_def)
  have tbl: "raw_scrapes ?db'
      = update_raw_status (domain r) FAILED t1 (mark_processing t0 (raw_scrapes db) (select_columns r))"
    by (simp add: insert_metric_def set_raw_status_def)
  have st: "\<forall>r' \<in> set (raw_scrapes ?db'). domain r' = domain r \<longrightarrow> status r' = FAILED"
    unfolding tbl using update_raw_status_sets by blast
  have keys: "map domain (raw_scrapes ?db') = map domain (raw_scrapes db)"
    unfolding tbl
    by (simp add: update_raw_status_def mark_processing_def comp_def if_distrib cong: if_cong)
  have m: "metrics ?db' = metrics db @
                 [\<lparr>metric_domain = domain r, start_time = t0, end_time = t1,
                   duration_seconds = t1 - t0, metric_success = False,
                   error_msg = Some (take 500 msg)\<rparr>]"
    by (simp add: insert_metric_def set_raw_status_def)
  have p: "profiles ?db' = profiles db"
    by (simp add: insert_metric_def set_raw_status_def)
  from once turn st keys m p show ?thesis by blast
qed

lemma process_row_caught:
  assumes ex: "\<And>d c t e. extract_profile d c t = Inl e \<Longrightarrow> raises_only_Exception e"
    and sink: "\<And>d p e. failing d p = Some e \<Longrightarrow> raises_only_Exception e"
  shows "fst (process_row extract_profile failing t0 t1 db row) = None"
proof (cases "extract_profile (row_domain row) (row_clean_text row) (row_tech_stack row)")
  case (Inl e)
  from ex[OF Inl] obtain msg where "e = Exception msg"
    by (cases e) (simp_all add: raises_only_Exception_def)
  with Inl show ?thesis by (simp add: process_row_def Let_def on_exception_Exception)
next
  case (Inr res)
  show ?thesis
  proof (cases res)
    case None
    with Inr show ?thesis by (simp add: process_row_def Let_def)
  next
    case (Some profile)
    show ?thesis
    proof (cases "failing (row_domain row) profile")
      case None
      with Inr Some show ?thesis by (simp add: process_row_def Let_def save_extracted_data_def)
    next
      case (Some e)
      from sink[OF Some] obtain msg where "e = Exception msg"
        by (cases e) (simp_all add: raises_only_Exception_def)
      with Inr Some \<open>res = Some profile\<close> show ?thesis
        by (simp add: process_row_def Let_def save_extracted_data_def on_exception_Exception)
    qed
  qed
qed

lemma process_rows_caught:
  assumes ex: "\<And>d c t e. extract_profile d c t = Inl e \<Longrightarrow> raises_only_Exception e"
    and sink: "\<And>d p e. failing d p = Some e \<Longrightarrow> raises_only_Exception e"
  shows "fst (process_rows extract_profile failing t0 t1 db rows) = None"
proof (induction rows arbitrary: db)
  case Nil
  show ?case by simp
next
  case (Cons row rows)
  have "fst (process_row extract_profile failing t0 t1 db row) = None"
    by (rule process_row_caught[OF ex sink])
  then obtain db' where "process_row extract_profile failing t0 t1 db row = (None, db')"
    by (cases "process_row extract_profile failing t0 t1 db row") simp
  then show ?case using Cons.IH[of db'] by simp
qed

lemma process_once_returns:
  assumes ex: "\<And>d c t e. extract_profile d c t = Inl e \<Longrightarrow> raises_only_Exception e"
    and sink: "\<And>d p e. failing d p = Some e \<Longrightarrow> raises_only_Exception e"
  shows "\<exists>n db'. process_once extract_profile failing worker_id t0 t1 db = (Inr n, db')
           \<and> worker_turn extract_profile failing worker_id t0 t1 db = (Inr Continue, db')"
proof -
  obtain rows tbl where c: "claim_pending_raw worker_id 1 t0 (raw_scrapes db) = (rows, tbl)"
    by (cases "claim_pending_raw worker_id 1 t0 (raw_scrapes db)")
  let ?db1 = "db\<lparr>raw_scrapes := tbl\<rparr>"
  have "fst (process_rows extract_profile failing t0 t1 ?db1 rows) = None"
    by (rule process_rows_caught[OF ex sink])
  then obtain db' where r: "process_rows extract_profile failing t0 t1 ?db1 rows = (None, db')"
    by (cases "process_rows extract_profile failing t0 t1 ?db1 rows") simp
  have "process_once extract_profile failing worker_id t0 t1 db
          = (if rows = [] then (Inr 0, ?db1) else (Inr (length rows), db'))"
    by (simp add: process_once_def c r)
  then obtain n db'' where o: "process_once extract_profile failing worker_id t0 t1 db = (Inr n, db'')"
    by (cases "rows = []") simp_all
  then have "worker_turn extract_profile failing worker_id t0 t1 db = (Inr Continue, db'')"
    by (simp add: worker_turn_def)
  with o show ?thesis by blast
qed

end
